theory Spec2Isabelle
  imports Complex_Main
begin

section \<open>Thrown values, test results and the outside world\<close>

text \<open>
  A JavaScript \<^verbatim>\<open>throw\<close> (a rejected promise of an \<^verbatim>\<open>async\<close> method) is a value:
  every operation returns \<open>error + 'a\<close>, with \<open>Inl\<close> for the thrown error. \<open>Error\<close> is
  \<^verbatim>\<open>new Error(message)\<close>; \<open>TypeError\<close> is what the runtime throws when a method is
  called on \<^verbatim>\<open>undefined\<close>; \<open>AxiosError\<close> is the HTTP library's rejection, with the
  status of the response when one was received (\<^verbatim>\<open>error.response?.status\<close>) and
  whether a request was sent (\<^verbatim>\<open>error.request\<close>).
\<close>

datatype error =
    Error (message: string)
  | TypeError (message: string)
  | AxiosError "int option" bool (message: string)

type_synonym 'a outcome = "error + 'a"

text \<open>\<^verbatim>\<open>status: 'passed' | 'failed' | 'skipped'\<close> (src/config/ConfigManager.ts:233).\<close>

datatype status = Passed | Failed | Skipped

text \<open>
  \<^verbatim>\<open>interface TestResult\<close>. A duration is a difference of two \<^verbatim>\<open>Date.now()\<close> readings,
  a whole number of milliseconds; the timestamp is the clock reading of \<^verbatim>\<open>new Date()\<close>.
  The optional \<^verbatim>\<open>error?: string\<close> is \<open>None\<close> when absent.
\<close>

record TestResult =
  testName :: string
  status :: status
  duration :: int
  error :: "string option"
  timestamp :: int

text \<open>
  Everything a command can read or change outside itself (the remote service, the
  console, objects it shares) is the component \<open>env\<close> of the world, of any type; the
  wall clock read by \<^verbatim>\<open>Date.now()\<close> is \<open>clock\<close>. Calls run one after the other
  (each \<^verbatim>\<open>await\<close> is waited for), so a call maps a world to a result and a new world.
\<close>

record 'e world =
  clock :: int
  env :: 'e

section \<open>Commands (src/commands/TestCommand.ts)\<close>

text \<open>
  \<^verbatim>\<open>interface TestCommand\<close>: \<^verbatim>\<open>execute(): Promise<TestResult>\<close>,
  \<^verbatim>\<open>undo(): Promise<void>\<close>, and the two names. Both promises may reject.
\<close>

record 'e TestCommand =
  execute :: "'e world \<Rightarrow> TestResult outcome \<times> 'e world"
  undo :: "'e world \<Rightarrow> unit outcome \<times> 'e world"
  getCommandName :: string
  getDescription :: string

text \<open>
  Reading \<^verbatim>\<open>xs[i]\<close>: \<^verbatim>\<open>undefined\<close> (here \<open>None\<close>) outside \<open>0 \<le> i < length\<close>.
\<close>

definition at_index :: "'a list \<Rightarrow> int \<Rightarrow> 'a option" where
  "at_index xs i = (if 0 \<le> i \<and> i < int (length xs) then Some (xs ! nat i) else None)"

text \<open>
  \<^verbatim>\<open>xs.slice(0, end)\<close>: a negative \<open>end\<close> counts from the end of the array.
\<close>

definition slice0 :: "'a list \<Rightarrow> int \<Rightarrow> 'a list" where
  "slice0 xs e = (if e < 0 then take (nat (int (length xs) + e)) xs else take (nat e) xs)"

text \<open>How a template literal \<^verbatim>\<open>${x}\<close> prints an optional string.\<close>

definition template :: "string option \<Rightarrow> string" where
  "template x = (case x of None \<Rightarrow> ''undefined'' | Some s \<Rightarrow> s)"

subsection \<open>TestCommandInvoker\<close>

record 'e TestCommandInvoker =
  history :: "'e TestCommand list"
  currentIndex :: int

text \<open>\<^verbatim>\<open>history = []; currentIndex = -1\<close> (lines 182-183).\<close>

definition new_invoker :: "'e TestCommandInvoker" where
  "new_invoker = \<lparr>history = [], currentIndex = -1\<rparr>"

text \<open>
  \<^verbatim>\<open>executeCommand\<close> (lines 185-192): the history is cut after the cursor, the command
  is pushed and the cursor advanced before the command runs, so the invoker has changed
  also when the command throws.
\<close>

definition executeCommand ::
  "'e TestCommandInvoker \<Rightarrow> 'e TestCommand \<Rightarrow> 'e world
    \<Rightarrow> TestResult outcome \<times> 'e TestCommandInvoker \<times> 'e world" where
  "executeCommand invoker command w =
     (let invoker' = \<lparr>history = slice0 (history invoker) (currentIndex invoker + 1) @ [command],
                  currentIndex = currentIndex invoker + 1\<rparr>;
          (r, w') = execute command w
      in (r, invoker', w'))"

text \<open>
  \<^verbatim>\<open>undoLastCommand\<close> (lines 194-200): the cursor moves back only after the command's
  undo has returned.
\<close>

definition undoLastCommand ::
  "'e TestCommandInvoker \<Rightarrow> 'e world \<Rightarrow> unit outcome \<times> 'e TestCommandInvoker \<times> 'e world" where
  "undoLastCommand invoker w =
     (if currentIndex invoker \<ge> 0 then
        (case at_index (history invoker) (currentIndex invoker) of
           None \<Rightarrow> (Inl (TypeError ''Cannot read properties of undefined (reading 'undo')''), invoker, w)
         | Some command \<Rightarrow>
             (case undo command w of
                (Inl e, w') \<Rightarrow> (Inl e, invoker, w')
              | (Inr u, w') \<Rightarrow> (Inr (), invoker\<lparr>currentIndex := currentIndex invoker - 1\<rparr>, w')))
      else (Inr (), invoker, w))"

text \<open>
  \<^verbatim>\<open>redoCommand\<close> (lines 202-209): \<open>Inr None\<close> is the returned \<^verbatim>\<open>null\<close>.
\<close>

definition redoCommand ::
  "'e TestCommandInvoker \<Rightarrow> 'e world
    \<Rightarrow> TestResult option outcome \<times> 'e TestCommandInvoker \<times> 'e world" where
  "redoCommand invoker w =
     (if currentIndex invoker < int (length (history invoker)) - 1 then
        (let invoker' = invoker\<lparr>currentIndex := currentIndex invoker + 1\<rparr> in
         case at_index (history invoker') (currentIndex invoker') of
           None \<Rightarrow> (Inl (TypeError ''Cannot read properties of undefined (reading 'execute')''), invoker', w)
         | Some command \<Rightarrow>
             (case execute command w of
                (Inl e, w') \<Rightarrow> (Inl e, invoker', w')
              | (Inr r, w') \<Rightarrow> (Inr (Some r), invoker', w')))
      else (Inr None, invoker, w))"

definition getHistory :: "'e TestCommandInvoker \<Rightarrow> 'e TestCommand list" where
  "getHistory invoker = history invoker"

definition clearHistory :: "'e TestCommandInvoker \<Rightarrow> 'e TestCommandInvoker" where
  "clearHistory invoker = \<lparr>history = [], currentIndex = -1\<rparr>"

definition canUndo :: "'e TestCommandInvoker \<Rightarrow> bool" where
  "canUndo invoker = (currentIndex invoker \<ge> 0)"

definition canRedo :: "'e TestCommandInvoker \<Rightarrow> bool" where
  "canRedo invoker = (currentIndex invoker < int (length (history invoker)) - 1)"

text \<open>
  A caller's sequence of invoker calls. A call that throws leaves the invoker and the
  world as they were at the throw, and the caller goes on with the next call.
\<close>

datatype 'e invoker_call =
  ExecuteCommand "'e TestCommand" | UndoLastCommand | RedoCommand | ClearHistory

fun invoker_step ::
  "'e invoker_call \<Rightarrow> 'e TestCommandInvoker \<times> 'e world \<Rightarrow> 'e TestCommandInvoker \<times> 'e world" where
  "invoker_step (ExecuteCommand c) (invoker, w) = snd (executeCommand invoker c w)"
| "invoker_step UndoLastCommand (invoker, w) = snd (undoLastCommand invoker w)"
| "invoker_step RedoCommand (invoker, w) = snd (redoCommand invoker w)"
| "invoker_step ClearHistory (invoker, w) = (clearHistory invoker, w)"

definition invoker_run ::
  "'e invoker_call list \<Rightarrow> 'e world \<Rightarrow> 'e TestCommandInvoker \<times> 'e world" where
  "invoker_run cs w = fold invoker_step cs (new_invoker, w)"

text \<open>The cursor invariant of section 3 of the specification.\<close>

definition cursor_ok :: "'e TestCommandInvoker \<Rightarrow> bool" where
  "cursor_ok invoker = (-1 \<le> currentIndex invoker \<and> currentIndex invoker < int (length (history invoker)))"

subsection \<open>MacroTestCommand\<close>

record 'e MacroTestCommand =
  commands :: "'e TestCommand list"
  name :: string
  description :: string

text \<open>The constructor (lines 234-238); \<^verbatim>\<open>commands\<close> defaults to \<^verbatim>\<open>[]\<close>.\<close>

definition new_MacroTestCommand ::
  "string \<Rightarrow> string \<Rightarrow> 'e TestCommand list \<Rightarrow> 'e MacroTestCommand" where
  "new_MacroTestCommand n d cs = \<lparr>commands = cs, name = n, description = d\<rparr>"

definition addCommand :: "'e MacroTestCommand \<Rightarrow> 'e TestCommand \<Rightarrow> 'e MacroTestCommand" where
  "addCommand m c = m\<lparr>commands := commands m @ [c]\<rparr>"

text \<open>
  The \<^verbatim>\<open>for (const command of this.commands)\<close> loop of \<^verbatim>\<open>execute\<close> (lines 249-263).
  Its three exits: the loop ends (\<open>Inr None\<close>), the \<^verbatim>\<open>return\<close> inside it at a failed
  sub-result (\<open>Inr (Some r)\<close>), a sub-command throws (\<open>Inl e\<close>). The local array
  \<^verbatim>\<open>results\<close> is written and never read; it is left out.
\<close>

fun execute_loop ::
  "string \<Rightarrow> int \<Rightarrow> 'e TestCommand list \<Rightarrow> 'e world \<Rightarrow> TestResult option outcome \<times> 'e world" where
  "execute_loop n startTime [] w = (Inr None, w)"
| "execute_loop n startTime (command # rest) w =
     (case execute command w of
        (Inl e, w') \<Rightarrow> (Inl e, w')
      | (Inr result, w') \<Rightarrow>
          if status result = Failed then
            (Inr (Some \<lparr>testName = n, status = Failed, duration = clock w' - startTime,
                        error = Some (''Command '' @ getCommandName command @ '' failed: ''
                                      @ template (error result)),
                        timestamp = clock w'\<rparr>), w')
          else execute_loop n startTime rest w')"

text \<open>\<^verbatim>\<open>MacroTestCommand.execute\<close> (lines 244-280): the loop inside \<^verbatim>\<open>try/catch\<close>.\<close>

definition MacroTestCommand_execute ::
  "'e MacroTestCommand \<Rightarrow> 'e world \<Rightarrow> TestResult outcome \<times> 'e world" where
  "MacroTestCommand_execute m w =
     (let startTime = clock w in
      case execute_loop (name m) startTime (commands m) w of
        (Inr (Some r), w') \<Rightarrow> (Inr r, w')
      | (Inr None, w') \<Rightarrow>
          (Inr \<lparr>testName = name m, status = Passed, duration = clock w' - startTime,
                error = None, timestamp = clock w'\<rparr>, w')
      | (Inl e, w') \<Rightarrow>
          (Inr \<lparr>testName = name m, status = Failed, duration = clock w' - startTime,
                error = Some (message e), timestamp = clock w'\<rparr>, w'))"

text \<open>
  \<^verbatim>\<open>for (let i = this.commands.length - 1; i >= 0; i--) await this.commands[i].undo()\<close>
  (lines 284-286). The second argument is \<open>i + 1\<close>; a throwing undo ends the loop.
\<close>

fun undo_loop :: "'e TestCommand list \<Rightarrow> nat \<Rightarrow> 'e world \<Rightarrow> unit outcome \<times> 'e world" where
  "undo_loop cs 0 w = (Inr (), w)"
| "undo_loop cs (Suc i) w =
     (case at_index cs (int i) of
        None \<Rightarrow> (Inl (TypeError ''Cannot read properties of undefined (reading 'undo')''), w)
      | Some command \<Rightarrow>
          (case undo command w of
             (Inl e, w') \<Rightarrow> (Inl e, w')
           | (Inr u, w') \<Rightarrow> undo_loop cs i w'))"

definition MacroTestCommand_undo :: "'e MacroTestCommand \<Rightarrow> 'e world \<Rightarrow> unit outcome \<times> 'e world" where
  "MacroTestCommand_undo m w = undo_loop (commands m) (length (commands m)) w"

text \<open>A macro command is a \<^verbatim>\<open>TestCommand\<close> itself (\<^verbatim>\<open>implements TestCommand\<close>).\<close>

definition MacroTestCommand_as_TestCommand :: "'e MacroTestCommand \<Rightarrow> 'e TestCommand" where
  "MacroTestCommand_as_TestCommand m =
     \<lparr>execute = MacroTestCommand_execute m, undo = MacroTestCommand_undo m,
      getCommandName = name m, getDescription = description m\<rparr>"

text \<open>
  What running a list of calls one after the other does to the world, each call started
  in the world the one before left: the yardstick the loops are compared with.
\<close>

fun run_all :: "('w \<Rightarrow> 'a outcome \<times> 'w) list \<Rightarrow> 'w \<Rightarrow> 'a outcome list \<times> 'w" where
  "run_all [] w = ([], w)"
| "run_all (f # fs) w =
     (let (r, w') = f w; (rs, w'') = run_all fs w' in (r # rs, w''))"

text \<open>No call of the list threw, and no result has the status \<^verbatim>\<open>'failed'\<close>.\<close>

definition all_passing :: "TestResult outcome list \<Rightarrow> bool" where
  "all_passing rs = list_all (\<lambda>r. case r of Inl e \<Rightarrow> False | Inr t \<Rightarrow> status t \<noteq> Failed) rs"

section \<open>Validation strategies (src/strategies/ValidationStrategy.ts)\<close>

record ValidationResult =
  isValid :: bool
  errors :: "string list"
  field :: "string option"

text \<open>
  \<^verbatim>\<open>interface ValidationStrategy\<close>: \<^verbatim>\<open>validate(data: any): ValidationResult\<close> and a
  name. A strategy is any object with these methods, so \<open>validate\<close> may read and change
  a world \<open>'w\<close> and may throw.
\<close>

record ('d, 'w) ValidationStrategy =
  validate :: "'d \<Rightarrow> 'w \<Rightarrow> ValidationResult outcome \<times> 'w"
  getStrategyName :: string

record ('d, 'w) CompositeValidationStrategy =
  strategies :: "('d, 'w) ValidationStrategy list"

definition new_CompositeValidationStrategy ::
  "('d, 'w) ValidationStrategy list \<Rightarrow> ('d, 'w) CompositeValidationStrategy" where
  "new_CompositeValidationStrategy ss = \<lparr>strategies = ss\<rparr>"

definition addStrategy ::
  "('d, 'w) CompositeValidationStrategy \<Rightarrow> ('d, 'w) ValidationStrategy
    \<Rightarrow> ('d, 'w) CompositeValidationStrategy" where
  "addStrategy c s = c\<lparr>strategies := strategies c @ [s]\<rparr>"

definition removeStrategy ::
  "('d, 'w) CompositeValidationStrategy \<Rightarrow> string \<Rightarrow> ('d, 'w) CompositeValidationStrategy" where
  "removeStrategy c strategyName =
     c\<lparr>strategies := filter (\<lambda>s. getStrategyName s \<noteq> strategyName) (strategies c)\<rparr>"

text \<open>
  The loop of \<^verbatim>\<open>CompositeValidationStrategy.validate\<close> (lines 208-214), with its two
  local variables: the errors of a sub-result are pushed only under
  \<^verbatim>\<open>if (!result.isValid)\<close>.
\<close>

fun validate_loop ::
  "('d, 'w) ValidationStrategy list \<Rightarrow> 'd \<Rightarrow> string list \<Rightarrow> bool \<Rightarrow> 'w
    \<Rightarrow> (string list \<times> bool) outcome \<times> 'w" where
  "validate_loop [] d allErrors allValid w = (Inr (allErrors, allValid), w)"
| "validate_loop (strategy # rest) d allErrors allValid w =
     (case validate strategy d w of
        (Inl e, w') \<Rightarrow> (Inl e, w')
      | (Inr result, w') \<Rightarrow>
          if \<not> isValid result then validate_loop rest d (allErrors @ errors result) False w'
          else validate_loop rest d allErrors allValid w')"

definition CompositeValidationStrategy_validate ::
  "('d, 'w) CompositeValidationStrategy \<Rightarrow> 'd \<Rightarrow> 'w \<Rightarrow> ValidationResult outcome \<times> 'w" where
  "CompositeValidationStrategy_validate c d w =
     (case validate_loop (strategies c) d [] True w of
        (Inl e, w') \<Rightarrow> (Inl e, w')
      | (Inr (allErrors, allValid), w') \<Rightarrow>
          (Inr \<lparr>isValid = allValid, errors = allErrors, field = Some ''composite''\<rparr>, w'))"

text \<open>\<^verbatim>\<open>names.join(', ')\<close>.\<close>

fun join :: "string \<Rightarrow> string list \<Rightarrow> string" where
  "join sep [] = []"
| "join sep [x] = x"
| "join sep (x # y # ys) = x @ sep @ join sep (y # ys)"

definition CompositeValidationStrategy_getStrategyName ::
  "('d, 'w) CompositeValidationStrategy \<Rightarrow> string" where
  "CompositeValidationStrategy_getStrategyName c =
     ''CompositeValidation('' @ join '', '' (map getStrategyName (strategies c)) @ '')''"

definition CompositeValidationStrategy_as_ValidationStrategy ::
  "('d, 'w) CompositeValidationStrategy \<Rightarrow> ('d, 'w) ValidationStrategy" where
  "CompositeValidationStrategy_as_ValidationStrategy c =
     \<lparr>validate = CompositeValidationStrategy_validate c,
      getStrategyName = CompositeValidationStrategy_getStrategyName c\<rparr>"

text \<open>
  What the specification says of a composite, over the list of the sub-results:
  valid iff every sub-result is, and the errors of all sub-results in order.
\<close>

definition spec_composite :: "ValidationResult list \<Rightarrow> bool \<times> string list" where
  "spec_composite rs = (list_all isValid rs, concat (map errors rs))"

text \<open>What the loop computes: only the invalid sub-results give their errors.\<close>

definition code_composite :: "ValidationResult list \<Rightarrow> bool \<times> string list" where
  "code_composite rs = (list_all isValid rs, concat (map errors (filter (\<lambda>r. \<not> isValid r) rs)))"

section \<open>Observers (src/observers/TestObserver.ts)\<close>

record TestSuite =
  suiteName :: string
  results :: "TestResult list"
  totalTests :: nat
  passedTests :: nat
  failedTests :: nat
  skippedTests :: nat
  totalDuration :: int

text \<open>
  \<^verbatim>\<open>interface TestObserver\<close>: three handlers returning \<^verbatim>\<open>void\<close>. A handler works on
  what the observer owns and on the console, the world \<open>'w\<close>, and may throw.
\<close>

record 'w TestObserver =
  onTestStart :: "string \<Rightarrow> 'w \<Rightarrow> unit outcome \<times> 'w"
  onTestComplete :: "TestResult \<Rightarrow> 'w \<Rightarrow> unit outcome \<times> 'w"
  onSuiteComplete :: "TestSuite \<Rightarrow> 'w \<Rightarrow> unit outcome \<times> 'w"

record 'w TestResultNotifier =
  observers :: "'w TestObserver list"

definition new_TestResultNotifier :: "'w TestResultNotifier" where
  "new_TestResultNotifier = \<lparr>observers = []\<rparr>"

definition addObserver :: "'w TestResultNotifier \<Rightarrow> 'w TestObserver \<Rightarrow> 'w TestResultNotifier" where
  "addObserver n observer = n\<lparr>observers := observers n @ [observer]\<rparr>"

text \<open>
  \<^verbatim>\<open>indexOf\<close> and \<^verbatim>\<open>splice(index, 1)\<close>: the first occurrence goes. The identity of
  an observer object is the equality of its value here.
\<close>

definition removeObserver :: "'w TestResultNotifier \<Rightarrow> 'w TestObserver \<Rightarrow> 'w TestResultNotifier" where
  "removeObserver n observer = n\<lparr>observers := remove1 observer (observers n)\<rparr>"

text \<open>
  \<^verbatim>\<open>Array.prototype.forEach\<close> on an array that the callback does not change: the
  callback runs on each element from the first on, and a throwing callback ends it.
\<close>

fun forEach :: "('a \<Rightarrow> 'w \<Rightarrow> unit outcome \<times> 'w) \<Rightarrow> 'a list \<Rightarrow> 'w \<Rightarrow> unit outcome \<times> 'w" where
  "forEach f [] w = (Inr (), w)"
| "forEach f (x # xs) w =
     (case f x w of
        (Inl e, w') \<Rightarrow> (Inl e, w')
      | (Inr u, w') \<Rightarrow> forEach f xs w')"

definition notifyTestStart :: "'w TestResultNotifier \<Rightarrow> string \<Rightarrow> 'w \<Rightarrow> unit outcome \<times> 'w" where
  "notifyTestStart n t w = forEach (\<lambda>observer. onTestStart observer t) (observers n) w"

definition notifyTestComplete :: "'w TestResultNotifier \<Rightarrow> TestResult \<Rightarrow> 'w \<Rightarrow> unit outcome \<times> 'w" where
  "notifyTestComplete n result w = forEach (\<lambda>observer. onTestComplete observer result) (observers n) w"

definition notifySuiteComplete :: "'w TestResultNotifier \<Rightarrow> TestSuite \<Rightarrow> 'w \<Rightarrow> unit outcome \<times> 'w" where
  "notifySuiteComplete n suite w = forEach (\<lambda>observer. onSuiteComplete observer suite) (observers n) w"

subsection \<open>MetricsTestObserver\<close>

text \<open>
  The numbers the metrics hold are whole numbers or \<^verbatim>\<open>Infinity\<close> (the initial duration
  of \<^verbatim>\<open>fastestTest\<close>); \<open>less_number\<close> is the comparison \<^verbatim>\<open><\<close> on them.
\<close>

datatype number = Finite int | Infinity

fun less_number :: "number \<Rightarrow> number \<Rightarrow> bool" where
  "less_number (Finite a) (Finite b) = (a < b)"
| "less_number (Finite a) Infinity = True"
| "less_number Infinity b = False"

text \<open>
  The object \<^verbatim>\<open>metrics\<close> (lines 339-348). An object \<^verbatim>\<open>{ name, duration }\<close> is the pair
  of the two; the empty name \<^verbatim>\<open>''\<close> is the empty list of characters. The counters start
  at 0 and are only incremented.
\<close>

record Metrics =
  totalTests :: nat
  passedTests :: nat
  failedTests :: nat
  skippedTests :: nat
  totalDuration :: int
  averageDuration :: real
  slowestTest :: "string \<times> number"
  fastestTest :: "string \<times> number"

definition new_Metrics :: Metrics where
  "new_Metrics =
     \<lparr>totalTests = 0, passedTests = 0, failedTests = 0, skippedTests = 0, totalDuration = 0,
      averageDuration = 0, slowestTest = ([], Finite 0), fastestTest = ([], Infinity)\<rparr>"

text \<open>\<^verbatim>\<open>MetricsTestObserver.onTestComplete\<close> (lines 354-379), statement by statement.\<close>

definition Metrics_onTestComplete :: "Metrics \<Rightarrow> TestResult \<Rightarrow> Metrics" where
  "Metrics_onTestComplete m result =
     (let m1 = m\<lparr>totalTests := totalTests m + 1\<rparr>;
          m2 = m1\<lparr>totalDuration := totalDuration m1 + duration result\<rparr>;
          m3 = (case status result of
                  Passed \<Rightarrow> m2\<lparr>passedTests := passedTests m2 + 1\<rparr>
                | Failed \<Rightarrow> m2\<lparr>failedTests := failedTests m2 + 1\<rparr>
                | Skipped \<Rightarrow> m2\<lparr>skippedTests := skippedTests m2 + 1\<rparr>);
          m4 = (if less_number (snd (slowestTest m3)) (Finite (duration result))
                then m3\<lparr>slowestTest := (testName result, Finite (duration result))\<rparr> else m3);
          m5 = (if less_number (Finite (duration result)) (snd (fastestTest m4))
                then m4\<lparr>fastestTest := (testName result, Finite (duration result))\<rparr> else m4)
      in m5\<lparr>averageDuration := real_of_int (totalDuration m5) / real (totalTests m5)\<rparr>)"

definition Metrics_reset :: "Metrics \<Rightarrow> Metrics" where
  "Metrics_reset m = new_Metrics"

text \<open>
  The observer as a \<^verbatim>\<open>TestObserver\<close>: its world is its own metrics;
  \<^verbatim>\<open>onTestStart\<close> and \<^verbatim>\<open>onSuiteComplete\<close> are empty.
\<close>

definition MetricsTestObserver :: "Metrics TestObserver" where
  "MetricsTestObserver =
     \<lparr>onTestStart = (\<lambda>t m. (Inr (), m)),
      onTestComplete = (\<lambda>result m. (Inr (), Metrics_onTestComplete m result)),
      onSuiteComplete = (\<lambda>suite m. (Inr (), m))\<rparr>"

text \<open>The metrics after a sequence of \<^verbatim>\<open>onTestComplete\<close> calls, first call first.\<close>

definition metrics_after :: "TestResult list \<Rightarrow> Metrics" where
  "metrics_after rs = foldl Metrics_onTestComplete new_Metrics rs"

section \<open>The resilient client (src/api/randomuser.client.ts)\<close>

text \<open>
  Query parameters are an object from keys to strings or numbers; the object spread
  \<^verbatim>\<open>{ ...a, ...b }\<close> is \<open>a ++ b\<close>, and \<^verbatim>\<open>{ ...a, k: v }\<close> is \<open>a(k \<mapsto> v)\<close>.
\<close>

datatype param_value = Str string | Num int

type_synonym RandomUserParams = "string \<rightharpoonup> param_value"

text \<open>The part of an HTTP response the client reads.\<close>

record 'r AxiosResponse =
  data :: 'r
  http_status :: int

text \<open>
  The fields of the client's configuration that the request path reads (base URL,
  timeout and logger only reach the HTTP library and the console).
\<close>

record ApiClientConfig =
  retryAttempts :: int
  retryDelay :: int

text \<open>
  What the client does to the outside: \<open>calls\<close> counts the HTTP requests issued, and
  \<open>waits\<close> lists the delays, in milliseconds, handed to \<^verbatim>\<open>wait\<close>, oldest first.
  The remote service is a parameter \<open>net\<close>: the outcome of the request with the given
  number (from 0) and query parameters.
\<close>

record client_world =
  calls :: nat
  waits :: "int list"

type_synonym 'r network = "nat \<Rightarrow> RandomUserParams \<Rightarrow> 'r AxiosResponse outcome"

text \<open>\<^verbatim>\<open>this.client.get('/', { params })\<close>: one request.\<close>

definition client_get ::
  "'r network \<Rightarrow> RandomUserParams \<Rightarrow> client_world \<Rightarrow> 'r AxiosResponse outcome \<times> client_world" where
  "client_get net ps w = (net (calls w) ps, w\<lparr>calls := Suc (calls w)\<rparr>)"

text \<open>\<^verbatim>\<open>wait(ms)\<close> (src/utils/helpers.ts): a timer of \<open>ms\<close> milliseconds.\<close>

definition wait :: "int \<Rightarrow> client_world \<Rightarrow> client_world" where
  "wait ms w = w\<lparr>waits := waits w @ [ms]\<rparr>"

text \<open>\<^verbatim>\<open>axiosError.response\<close> of any thrown value: only an HTTP error has one.\<close>

fun response_status :: "error \<Rightarrow> int option" where
  "response_status (AxiosError r q m) = r"
| "response_status (Error m) = None"
| "response_status (TypeError m) = None"

text \<open>
  The guard of line 193:
  \<^verbatim>\<open>response && status >= 400 && status < 500 && status !== 429\<close>.
\<close>

definition nonRetryable :: "error \<Rightarrow> bool" where
  "nonRetryable e =
     (case response_status e of
        None \<Rightarrow> False
      | Some st \<Rightarrow> st \<ge> 400 \<and> st < 500 \<and> st \<noteq> 429)"

text \<open>
  \<^verbatim>\<open>retryRequest\<close> (lines 180-206). The method is private and entered with
  \<^verbatim>\<open>attempt = 1\<close> only, so \<open>attempt\<close> is a natural number, at least 1 in every call;
  \<^verbatim>\<open>Math.pow(2, attempt - 1)\<close> is then a whole number. The warning written to the
  logger is not part of the model.
\<close>

function retryRequest ::
  "ApiClientConfig \<Rightarrow> (client_world \<Rightarrow> 'a outcome \<times> client_world) \<Rightarrow> nat \<Rightarrow> client_world
    \<Rightarrow> 'a outcome \<times> client_world" where
  "retryRequest cfg requestFn attempt w =
     (case requestFn w of
        (Inr r, w') \<Rightarrow> (Inr r, w')
      | (Inl e, w') \<Rightarrow>
          if int attempt \<ge> retryAttempts cfg then (Inl e, w')
          else if nonRetryable e then (Inl e, w')
          else retryRequest cfg requestFn (attempt + 1)
                 (wait (retryDelay cfg * 2 ^ (attempt - 1)) w'))"
  by pat_completeness auto
termination
  by (relation "measure (\<lambda>(cfg, requestFn, attempt, w). nat (retryAttempts cfg - int attempt))") auto

declare retryRequest.simps [simp del]

text \<open>Decimal digits of a number, for \<^verbatim>\<open>${status}\<close>.\<close>

fun string_of_nat :: "nat \<Rightarrow> string" where
  "string_of_nat n =
     (if n < 10 then [char_of (48 + n)]
      else string_of_nat (n div 10) @ [char_of (48 + n mod 10)])"

declare string_of_nat.simps [simp del]

definition string_of_int :: "int \<Rightarrow> string" where
  "string_of_int i = (if i < 0 then ''-'' @ string_of_nat (nat (- i)) else string_of_nat (nat i))"

text \<open>
  \<^verbatim>\<open>handleError\<close> (lines 208-238). \<open>Error\<close> and \<open>TypeError\<close> are instances of
  \<^verbatim>\<open>Error\<close> and are returned as they are.
\<close>

definition handleError :: "error \<Rightarrow> error" where
  "handleError e =
     (case e of
        AxiosError (Some st) q m \<Rightarrow>
          (let msg = ''API request failed with status '' @ string_of_int st in
           if st = 400 then Error (msg @ '': Bad Request - Invalid parameters'')
           else if st = 404 then Error (msg @ '': Not Found - Invalid endpoint'')
           else if st = 429 then Error (msg @ '': Too Many Requests - Rate limit exceeded'')
           else if st = 500 then Error (msg @ '': Internal Server Error'')
           else if st = 503 then Error (msg @ '': Service Unavailable'')
           else Error (msg @ '': '' @ m))
      | AxiosError None q m \<Rightarrow>
          (if q then Error ''No response from server - Network error or timeout''
           else Error (''Request configuration error: '' @ m))
      | _ \<Rightarrow> e)"

text \<open>
  \<^verbatim>\<open>getUsers\<close> (lines 99-118): the defaults \<^verbatim>\<open>{ format: 'json', results: 1 }\<close>
  under the caller's parameters, the retried request, its \<^verbatim>\<open>data\<close>; any failure goes
  through \<^verbatim>\<open>handleError\<close>. The duration written to the logger is not part of the model.
\<close>

definition defaultParams :: RandomUserParams where
  "defaultParams = [''format'' \<mapsto> Str ''json'', ''results'' \<mapsto> Num 1]"

definition getUsers ::
  "'r network \<Rightarrow> ApiClientConfig \<Rightarrow> RandomUserParams \<Rightarrow> client_world \<Rightarrow> 'r outcome \<times> client_world" where
  "getUsers net cfg params w =
     (let mergedParams = defaultParams ++ params in
      case retryRequest cfg (client_get net mergedParams) 1 w of
        (Inr response, w') \<Rightarrow> (Inr (data response), w')
      | (Inl e, w') \<Rightarrow> (Inl (handleError e), w'))"

definition getSingleUser ::
  "'r network \<Rightarrow> ApiClientConfig \<Rightarrow> RandomUserParams \<Rightarrow> client_world \<Rightarrow> 'r outcome \<times> client_world" where
  "getSingleUser net cfg params w = getUsers net cfg (params(''results'' \<mapsto> Num 1)) w"

text \<open>
  \<^verbatim>\<open>getMultipleUsers\<close> (lines 124-129); \<^verbatim>\<open>params\<close> is \<open>Map.empty\<close> when the caller
  gives none.
\<close>

definition getMultipleUsers ::
  "'r network \<Rightarrow> ApiClientConfig \<Rightarrow> int \<Rightarrow> RandomUserParams \<Rightarrow> client_world
    \<Rightarrow> 'r outcome \<times> client_world" where
  "getMultipleUsers net cfg count params w =
     (if count < 1 \<or> count > 5000 then (Inl (Error ''Count must be between 1 and 5000''), w)
      else getUsers net cfg (params(''results'' \<mapsto> Num count)) w)"

section \<open>Concrete commands, observers and strategies\<close>

text \<open>
  A command that writes what is done to it into a log (the world's \<open>env\<close>) and
  returns a result of the given status.
\<close>

definition logging_command :: "string \<Rightarrow> status \<Rightarrow> string list TestCommand" where
  "logging_command n st =
     \<lparr>execute = (\<lambda>w. (Inr \<lparr>testName = n, status = st, duration = 0,
                             error = (if st = Failed then Some ''boom'' else None),
                             timestamp = clock w\<rparr>,
                       w\<lparr>env := env w @ [''execute '' @ n]\<rparr>)),
      undo = (\<lambda>w. (Inr (), w\<lparr>env := env w @ [''undo '' @ n]\<rparr>)),
      getCommandName = n, getDescription = n\<rparr>"

definition empty_log :: "string list world" where
  "empty_log = \<lparr>clock = 0, env = []\<rparr>"

text \<open>An observer that writes each event into a log, under its own name.\<close>

definition logging_observer :: "string \<Rightarrow> string list TestObserver" where
  "logging_observer n =
     \<lparr>onTestStart = (\<lambda>t w. (Inr (), w @ [n @ '' start '' @ t])),
      onTestComplete = (\<lambda>r w. (Inr (), w @ [n @ '' complete '' @ testName r])),
      onSuiteComplete = (\<lambda>s w. (Inr (), w @ [n @ '' suite '' @ suiteName s]))\<rparr>"

text \<open>A strategy with a fixed result, which logs that it ran.\<close>

definition fixed_strategy :: "string \<Rightarrow> bool \<Rightarrow> string list \<Rightarrow> (unit, string list) ValidationStrategy" where
  "fixed_strategy n v es =
     \<lparr>validate = (\<lambda>d w. (Inr \<lparr>isValid = v, errors = es, field = None\<rparr>, w @ [n])),
      getStrategyName = n\<rparr>"

text \<open>A service that answers 503 to the first two requests and 200 from then on.\<close>

definition flaky_network :: "string network" where
  "flaky_network i ps =
     (if i < 2 then Inl (AxiosError (Some 503) True ''Request failed with status code 503'')
      else Inr \<lparr>data = ''ok'', http_status = 200\<rparr>)"


section \<open>The invoker: history and cursor\<close>

lemma cursor_ok_new: "cursor_ok new_invoker"
  by (simp add: cursor_ok_def new_invoker_def)

lemma cursor_ok_executeCommand:
  "cursor_ok invoker \<Longrightarrow> cursor_ok (fst (snd (executeCommand invoker c w)))"
  by (auto simp: cursor_ok_def executeCommand_def Let_def slice0_def split: prod.splits)

lemma cursor_ok_undoLastCommand:
  "cursor_ok invoker \<Longrightarrow> cursor_ok (fst (snd (undoLastCommand invoker w)))"
  by (auto simp: cursor_ok_def undoLastCommand_def split: prod.splits option.splits sum.splits)

lemma cursor_ok_redoCommand:
  "cursor_ok invoker \<Longrightarrow> cursor_ok (fst (snd (redoCommand invoker w)))"
  by (auto simp: cursor_ok_def redoCommand_def Let_def split: prod.splits option.splits sum.splits)

lemma cursor_ok_clearHistory: "cursor_ok (clearHistory invoker)"
  by (simp add: cursor_ok_def clearHistory_def)

lemma cursor_ok_step: "cursor_ok (fst s) \<Longrightarrow> cursor_ok (fst (invoker_step call s))"
  by (cases call; cases s)
     (simp_all add: cursor_ok_executeCommand cursor_ok_undoLastCommand cursor_ok_redoCommand
        cursor_ok_clearHistory)

lemma cursor_ok_fold: "cursor_ok (fst s) \<Longrightarrow> cursor_ok (fst (fold invoker_step cs s))"
  by (induction cs arbitrary: s) (simp_all add: cursor_ok_step)

text \<open>
  Claim C1, as the code has it. From a fresh invoker, after \<^verbatim>\<open>execute(A)\<close>,
  \<^verbatim>\<open>execute(B)\<close>, \<^verbatim>\<open>undo()\<close>, \<^verbatim>\<open>execute(C)\<close>, where the undo of \<open>B\<close> returns: the
  history is \<open>[A, C]\<close>, so its length is 2 (not 3), the entry at index 1 is \<open>C\<close> (the
  branch of \<open>B\<close> is gone), and \<^verbatim>\<open>canRedo()\<close> is false.
\<close>

theorem invoker_branch_discarded:
  assumes "fst (undo B (snd (execute B (snd (execute A w))))) = Inr ()"
  shows "history (fst (invoker_run [ExecuteCommand A, ExecuteCommand B, UndoLastCommand, ExecuteCommand C] w)) = [A, C]
    \<and> length (history (fst (invoker_run [ExecuteCommand A, ExecuteCommand B, UndoLastCommand, ExecuteCommand C] w))) = 2
    \<and> at_index (history (fst (invoker_run [ExecuteCommand A, ExecuteCommand B, UndoLastCommand, ExecuteCommand C] w))) 1 = Some C
    \<and> \<not> canRedo (fst (invoker_run [ExecuteCommand A, ExecuteCommand B, UndoLastCommand, ExecuteCommand C] w))"
proof -
  obtain ra wa where a: "execute A w = (ra, wa)" by (cases "execute A w")
  obtain rb wb where b: "execute B wa = (rb, wb)" by (cases "execute B wa")
  obtain ru wu where u: "undo B wb = (ru, wu)" by (cases "undo B wb")
  obtain rc wc where c: "execute C wu = (rc, wc)" by (cases "execute C wu")
  from assms a b u have ru: "ru = Inr ()" by simp
  have "fst (invoker_run [ExecuteCommand A, ExecuteCommand B, UndoLastCommand, ExecuteCommand C] w)
        = \<lparr>history = [A, C], currentIndex = 1\<rparr>"
    by (simp add: invoker_run_def new_invoker_def executeCommand_def undoLastCommand_def
          slice0_def at_index_def a b u c ru)
  then show ?thesis by (simp add: canRedo_def at_index_def)
qed

theorem invoker_branch_discarded_witness:
  "fst (undo (logging_command ''B'' Passed)
         (snd (execute (logging_command ''B'' Passed)
           (snd (execute (logging_command ''A'' Passed) empty_log))))) = Inr ()
   \<and> history (fst (invoker_run [ExecuteCommand (logging_command ''A'' Passed),
       ExecuteCommand (logging_command ''B'' Passed), UndoLastCommand,
       ExecuteCommand (logging_command ''C'' Passed)] empty_log))
     = [logging_command ''A'' Passed, logging_command ''C'' Passed]
   \<and> length (history (fst (invoker_run [ExecuteCommand (logging_command ''A'' Passed),
       ExecuteCommand (logging_command ''B'' Passed), UndoLastCommand,
       ExecuteCommand (logging_command ''C'' Passed)] empty_log))) = 2
   \<and> \<not> canRedo (fst (invoker_run [ExecuteCommand (logging_command ''A'' Passed),
       ExecuteCommand (logging_command ''B'' Passed), UndoLastCommand,
       ExecuteCommand (logging_command ''C'' Passed)] empty_log))"
proof -
  have h: "fst (undo (logging_command ''B'' Passed)
         (snd (execute (logging_command ''B'' Passed)
           (snd (execute (logging_command ''A'' Passed) empty_log))))) = Inr ()"
    by (simp add: logging_command_def)
  show ?thesis
    using h invoker_branch_discarded [OF h, of "logging_command ''C'' Passed"] by simp
qed

text \<open>
  Claim C1 as the specification states it (history length 3) fails: at three logging
  commands the history has another length.
\<close>

theorem invoker_history_length_counterexample:
  "length (history (fst (invoker_run [ExecuteCommand (logging_command ''A'' Passed),
       ExecuteCommand (logging_command ''B'' Passed), UndoLastCommand,
       ExecuteCommand (logging_command ''C'' Passed)] empty_log))) \<noteq> 3"
  by (simp add: invoker_run_def new_invoker_def executeCommand_def undoLastCommand_def
        slice0_def at_index_def logging_command_def empty_log_def)

text \<open>
  Claim C5. After any finite sequence of \<^verbatim>\<open>executeCommand\<close>, \<^verbatim>\<open>undoLastCommand\<close>,
  \<^verbatim>\<open>redoCommand\<close> and \<^verbatim>\<open>clearHistory\<close> calls on a fresh invoker (whatever the
  commands do, also when they throw), \<open>-1 \<le> cursor < length history\<close>; the cursor is
  \<open>-1\<close> when the history is empty; and each single call keeps the invariant.
\<close>

theorem invoker_cursor_invariant:
  "cursor_ok (fst (invoker_run cs w))
   \<and> (history (fst (invoker_run cs w)) = [] \<longrightarrow> currentIndex (fst (invoker_run cs w)) = -1)
   \<and> (cursor_ok invoker \<longrightarrow> cursor_ok (fst (invoker_step call (invoker, w'))))"
proof -
  have ok: "cursor_ok (fst (invoker_run cs w))"
    unfolding invoker_run_def by (rule cursor_ok_fold) (simp add: cursor_ok_new)
  then have "history (fst (invoker_run cs w)) = [] \<longrightarrow> currentIndex (fst (invoker_run cs w)) = -1"
    by (auto simp: cursor_ok_def)
  moreover have "cursor_ok invoker \<longrightarrow> cursor_ok (fst (invoker_step call (invoker, w')))"
    using cursor_ok_step [of "(invoker, w')" call] by simp
  ultimately show ?thesis using ok by blast
qed

theorem invoker_cursor_invariant_witness:
  "history (fst (invoker_run [ExecuteCommand (logging_command ''A'' Failed), UndoLastCommand,
       ClearHistory] empty_log)) = []
   \<and> currentIndex (fst (invoker_run [ExecuteCommand (logging_command ''A'' Failed), UndoLastCommand,
       ClearHistory] empty_log)) = -1
   \<and> cursor_ok \<lparr>history = [logging_command ''A'' Passed], currentIndex = 0\<rparr>
   \<and> cursor_ok (fst (invoker_step UndoLastCommand
        (\<lparr>history = [logging_command ''A'' Passed], currentIndex = 0\<rparr>, empty_log)))"
proof -
  have h1: "history (fst (invoker_run [ExecuteCommand (logging_command ''A'' Failed),
       UndoLastCommand, ClearHistory] empty_log)) = []"
    by (simp add: invoker_run_def clearHistory_def new_invoker_def executeCommand_def
          undoLastCommand_def slice0_def at_index_def logging_command_def empty_log_def)
  have h2: "cursor_ok \<lparr>history = [logging_command ''A'' Passed], currentIndex = 0\<rparr>"
    by (simp add: cursor_ok_def)
  show ?thesis
    using h1 h2
      invoker_cursor_invariant [of "[ExecuteCommand (logging_command ''A'' Failed),
        UndoLastCommand, ClearHistory]" empty_log
        "\<lparr>history = [logging_command ''A'' Passed], currentIndex = 0\<rparr>" UndoLastCommand empty_log]
    by simp
qed

text \<open>
  Claim C7. \<^verbatim>\<open>undoLastCommand\<close> at cursor \<open>-1\<close> returns without an error and changes
  nothing. \<^verbatim>\<open>redoCommand\<close> with the cursor at the newest entry returns \<^verbatim>\<open>null\<close>
  without an error and changes nothing. Otherwise (cursor from \<open>-1\<close> on, below the
  newest entry) \<^verbatim>\<open>redoCommand\<close> moves the cursor one up, executes the entry there and
  returns what that execution returns.
\<close>

theorem invoker_undo_redo_edges:
  "(currentIndex invoker = -1 \<longrightarrow> undoLastCommand invoker w = (Inr (), invoker, w))
   \<and> (currentIndex invoker = int (length (history invoker)) - 1 \<longrightarrow>
        redoCommand invoker w = (Inr None, invoker, w))
   \<and> (-1 \<le> currentIndex invoker \<and> currentIndex invoker < int (length (history invoker)) - 1 \<longrightarrow>
        redoCommand invoker w =
          (map_sum id Some (fst (execute (history invoker ! nat (currentIndex invoker + 1)) w)),
           invoker\<lparr>currentIndex := currentIndex invoker + 1\<rparr>,
           snd (execute (history invoker ! nat (currentIndex invoker + 1)) w)))"
  by (auto simp: undoLastCommand_def redoCommand_def at_index_def Let_def
        split: prod.splits sum.splits)

theorem invoker_undo_redo_edges_witness:
  "undoLastCommand \<lparr>history = [logging_command ''A'' Passed], currentIndex = -1\<rparr> empty_log
     = (Inr (), \<lparr>history = [logging_command ''A'' Passed], currentIndex = -1\<rparr>, empty_log)
   \<and> redoCommand \<lparr>history = [logging_command ''A'' Passed], currentIndex = 0\<rparr> empty_log
     = (Inr None, \<lparr>history = [logging_command ''A'' Passed], currentIndex = 0\<rparr>, empty_log)
   \<and> redoCommand \<lparr>history = [logging_command ''A'' Passed, logging_command ''B'' Failed],
                   currentIndex = 0\<rparr> empty_log
     = (Inr (Some \<lparr>testName = ''B'', status = Failed, duration = 0, error = Some ''boom'',
                    timestamp = 0\<rparr>),
        \<lparr>history = [logging_command ''A'' Passed, logging_command ''B'' Failed], currentIndex = 1\<rparr>,
        \<lparr>clock = 0, env = [''execute B'']\<rparr>)"
  using
    invoker_undo_redo_edges [of "\<lparr>history = [logging_command ''A'' Passed], currentIndex = -1\<rparr>" empty_log]
    invoker_undo_redo_edges [of "\<lparr>history = [logging_command ''A'' Passed], currentIndex = 0\<rparr>" empty_log]
    invoker_undo_redo_edges [of "\<lparr>history = [logging_command ''A'' Passed, logging_command ''B'' Failed],
                   currentIndex = 0\<rparr>" empty_log]
  by (simp add: logging_command_def empty_log_def)


section \<open>Macro commands\<close>

lemma execute_loop_append:
  "run_all (map execute pre) w = (rs, w1) \<Longrightarrow> all_passing rs \<Longrightarrow>
   execute_loop n s (pre @ rest) w = execute_loop n s rest w1"
proof (induction pre arbitrary: w rs w1)
  case Nil
  then show ?case by simp
next
  case (Cons c pre)
  obtain r wa where c: "execute c w = (r, wa)" by (cases "execute c w")
  obtain rs' wb where p: "run_all (map execute pre) wa = (rs', wb)"
    by (cases "run_all (map execute pre) wa")
  from Cons.prems c p have rs: "rs = r # rs'" and w1: "w1 = wb" by simp_all
  from Cons.prems(2) rs obtain t where r: "r = Inr t" "status t \<noteq> Failed" and ap: "all_passing rs'"
    by (auto simp: all_passing_def split: sum.splits)
  from Cons.IH [OF p ap] c r w1 show ?case by simp
qed

lemma undo_loop_take:
  "k \<le> length cs \<Longrightarrow> run_all (map undo (rev (take k cs))) w = (us, w') \<Longrightarrow>
   list_all (\<lambda>u. u = Inr ()) us \<Longrightarrow> undo_loop cs k w = (Inr (), w')"
proof (induction k arbitrary: w us w')
  case 0
  then show ?case by simp
next
  case (Suc k)
  then have k: "k < length cs" by simp
  then have tk: "take (Suc k) cs = take k cs @ [cs ! k]" by (simp add: take_Suc_conv_app_nth)
  obtain u wa where c: "undo (cs ! k) w = (u, wa)" by (cases "undo (cs ! k) w")
  obtain us' wb where p: "run_all (map undo (rev (take k cs))) wa = (us', wb)"
    by (cases "run_all (map undo (rev (take k cs))) wa")
  from Suc.prems(2) tk c p have us: "us = u # us'" and w': "w' = wb" by simp_all
  from Suc.prems(3) us have u: "u = Inr ()" and ok: "list_all (\<lambda>u. u = Inr ()) us'" by simp_all
  from k have "k \<le> length cs" by simp
  from Suc.IH [OF this p ok] c u w' k show ?case by (simp add: at_index_def)
qed

lemma undo_loop_forEach:
  "k \<le> length cs \<Longrightarrow> undo_loop cs k w = forEach undo (rev (take k cs)) w"
proof (induction k arbitrary: w)
  case 0
  then show ?case by simp
next
  case (Suc k)
  then have k: "k < length cs" by simp
  then have tk: "rev (take (Suc k) cs) = cs ! k # rev (take k cs)"
    by (simp add: take_Suc_conv_app_nth)
  from k Suc.IH show ?case
    by (simp add: tk at_index_def split: prod.splits sum.splits)
qed

text \<open>
  Claim C4. \<^verbatim>\<open>MacroTestCommand.execute\<close> runs the sub-commands in list order. When the
  sub-commands \<open>pre\<close> return results that are not failed and the next one, \<open>c\<close>, returns
  a failed result \<open>t\<close>, the macro returns a failed result whose error is
  \<^verbatim>\<open>Command <name of c> failed: <error of t>\<close>, and the world is the one \<open>c\<close> left: none
  of the sub-commands \<open>post\<close> after it has run. When no sub-command fails the macro
  passes, all having run in order. \<^verbatim>\<open>MacroTestCommand.undo\<close> runs the undo of every
  sub-command, last sub-command first, whatever the executions returned (each undo
  returning); in general it is the loop over the reversed list, which a throwing undo
  ends.
\<close>

theorem macro_execute_undo:
  "(run_all (map execute pre) w = (rs, w1) \<and> all_passing rs
      \<and> execute c w1 = (Inr t, w2) \<and> status t = Failed \<longrightarrow>
    MacroTestCommand_execute (new_MacroTestCommand n d (pre @ c # post)) w =
      (Inr \<lparr>testName = n, status = Failed, duration = clock w2 - clock w,
            error = Some (''Command '' @ getCommandName c @ '' failed: '' @ template (error t)),
            timestamp = clock w2\<rparr>, w2))
   \<and> (run_all (map execute cs) w = (rs', w3) \<and> all_passing rs' \<longrightarrow>
    MacroTestCommand_execute (new_MacroTestCommand n d cs) w =
      (Inr \<lparr>testName = n, status = Passed, duration = clock w3 - clock w, error = None,
            timestamp = clock w3\<rparr>, w3))
   \<and> (run_all (map undo (rev cs)) w = (us, w') \<and> list_all (\<lambda>u. u = Inr ()) us \<longrightarrow>
    MacroTestCommand_undo (new_MacroTestCommand n d cs) w = (Inr (), w'))
   \<and> MacroTestCommand_undo (new_MacroTestCommand n d cs) w = forEach undo (rev cs) w"
proof (intro conjI impI)
  assume a: "run_all (map execute pre) w = (rs, w1) \<and> all_passing rs
      \<and> execute c w1 = (Inr t, w2) \<and> status t = Failed"
  then have "execute_loop n (clock w) (pre @ c # post) w = execute_loop n (clock w) (c # post) w1"
    by (simp add: execute_loop_append)
  with a show "MacroTestCommand_execute (new_MacroTestCommand n d (pre @ c # post)) w =
      (Inr \<lparr>testName = n, status = Failed, duration = clock w2 - clock w,
            error = Some (''Command '' @ getCommandName c @ '' failed: '' @ template (error t)),
            timestamp = clock w2\<rparr>, w2)"
    by (simp add: MacroTestCommand_execute_def new_MacroTestCommand_def)
next
  assume a: "run_all (map execute cs) w = (rs', w3) \<and> all_passing rs'"
  then have "execute_loop n (clock w) (cs @ []) w = execute_loop n (clock w) [] w3"
    using execute_loop_append [of cs w rs' w3 n "clock w" "[]"] by blast
  then show "MacroTestCommand_execute (new_MacroTestCommand n d cs) w =
      (Inr \<lparr>testName = n, status = Passed, duration = clock w3 - clock w, error = None,
            timestamp = clock w3\<rparr>, w3)"
    by (simp add: MacroTestCommand_execute_def new_MacroTestCommand_def)
next
  assume a: "run_all (map undo (rev cs)) w = (us, w') \<and> list_all (\<lambda>u. u = Inr ()) us"
  then have "undo_loop cs (length cs) w = (Inr (), w')"
    using undo_loop_take [of "length cs" cs w us w'] by simp
  then show "MacroTestCommand_undo (new_MacroTestCommand n d cs) w = (Inr (), w')"
    by (simp add: MacroTestCommand_undo_def new_MacroTestCommand_def)
next
  show "MacroTestCommand_undo (new_MacroTestCommand n d cs) w = forEach undo (rev cs) w"
    using undo_loop_forEach [of "length cs" cs w]
    by (simp add: MacroTestCommand_undo_def new_MacroTestCommand_def)
qed

theorem macro_execute_undo_witness:
  "MacroTestCommand_execute
      (new_MacroTestCommand ''M'' ''d''
        [logging_command ''A'' Passed, logging_command ''B'' Failed, logging_command ''C'' Passed])
      empty_log
     = (Inr \<lparr>testName = ''M'', status = Failed, duration = 0,
              error = Some ''Command B failed: boom'', timestamp = 0\<rparr>,
        \<lparr>clock = 0, env = [''execute A'', ''execute B'']\<rparr>)
   \<and> MacroTestCommand_execute
      (new_MacroTestCommand ''M'' ''d'' [logging_command ''A'' Passed, logging_command ''C'' Skipped])
      empty_log
     = (Inr \<lparr>testName = ''M'', status = Passed, duration = 0, error = None, timestamp = 0\<rparr>,
        \<lparr>clock = 0, env = [''execute A'', ''execute C'']\<rparr>)
   \<and> MacroTestCommand_undo
      (new_MacroTestCommand ''M'' ''d''
        [logging_command ''A'' Passed, logging_command ''B'' Failed, logging_command ''C'' Passed])
      \<lparr>clock = 0, env = [''execute A'', ''execute B'']\<rparr>
     = (Inr (), \<lparr>clock = 0, env = [''execute A'', ''execute B'', ''undo C'', ''undo B'', ''undo A'']\<rparr>)"
  using
    macro_execute_undo [where pre = "[logging_command ''A'' Passed]" and w = empty_log
      and rs = "[Inr \<lparr>testName = ''A'', status = Passed, duration = 0, error = None, timestamp = 0\<rparr>]"
      and ?w1.0 = "\<lparr>clock = 0, env = [''execute A'']\<rparr>"
      and c = "logging_command ''B'' Failed"
      and t = "\<lparr>testName = ''B'', status = Failed, duration = 0, error = Some ''boom'', timestamp = 0\<rparr>"
      and ?w2.0 = "\<lparr>clock = 0, env = [''execute A'', ''execute B'']\<rparr>"
      and post = "[logging_command ''C'' Passed]" and n = "''M''" and d = "''d''"
      and cs = "[logging_command ''A'' Passed, logging_command ''C'' Skipped]"
      and rs' = "[Inr \<lparr>testName = ''A'', status = Passed, duration = 0, error = None, timestamp = 0\<rparr>,
                 Inr \<lparr>testName = ''C'', status = Skipped, duration = 0, error = None, timestamp = 0\<rparr>]"
      and ?w3.0 = "\<lparr>clock = 0, env = [''execute A'', ''execute C'']\<rparr>"]
    macro_execute_undo [where w = "\<lparr>clock = 0, env = [''execute A'', ''execute B'']\<rparr>"
      and n = "''M''" and d = "''d''"
      and cs = "[logging_command ''A'' Passed, logging_command ''B'' Failed, logging_command ''C'' Passed]"
      and us = "[Inr (), Inr (), Inr ()]"
      and w' = "\<lparr>clock = 0, env = [''execute A'', ''execute B'', ''undo C'', ''undo B'', ''undo A'']\<rparr>"]
  by (simp add: logging_command_def empty_log_def all_passing_def template_def)

text \<open>
  Claim C10. A macro command built over the empty list passes, with no error message,
  and leaves the world as it was; its undo returns and leaves the world as it was.
\<close>

theorem macro_empty:
  "MacroTestCommand_execute (new_MacroTestCommand n d []) w
     = (Inr \<lparr>testName = n, status = Passed, duration = 0, error = None, timestamp = clock w\<rparr>, w)
   \<and> MacroTestCommand_undo (new_MacroTestCommand n d []) w = (Inr (), w)"
  by (simp add: MacroTestCommand_execute_def MacroTestCommand_undo_def new_MacroTestCommand_def)

section \<open>Observer fan-out\<close>

lemma forEach_run_all:
  "run_all (map f xs) w = (us, w') \<Longrightarrow> list_all (\<lambda>u. u = Inr ()) us \<Longrightarrow>
   forEach f xs w = (Inr (), w')"
proof (induction xs arbitrary: w us w')
  case Nil
  then show ?case by simp
next
  case (Cons x xs)
  obtain u wa where x: "f x w = (u, wa)" by (cases "f x w")
  obtain us' wb where p: "run_all (map f xs) wa = (us', wb)" by (cases "run_all (map f xs) wa")
  from Cons.prems x p have us: "us = u # us'" and w': "w' = wb" by simp_all
  from Cons.prems(2) us have u: "u = Inr ()" and ok: "list_all (\<lambda>u. u = Inr ()) us'" by simp_all
  from Cons.IH [OF p ok] x u w' show ?case by simp
qed

lemma length_run_all: "run_all fs w = (rs, w') \<Longrightarrow> length rs = length fs"
  by (induction fs arbitrary: w rs w') (auto split: prod.splits)

text \<open>
  Claim C6. For each of \<^verbatim>\<open>notifyTestStart\<close>, \<^verbatim>\<open>notifyTestComplete\<close> and
  \<^verbatim>\<open>notifySuiteComplete\<close>: when no handler throws, one call runs the handler of every
  entry of the observer list once, first subscribed first, each in the world the one
  before left, and returns after the last (the world returned is the one the last handler
  left; there are as many handler runs as entries). With two observers subscribed to a new
  notifier, one \<^verbatim>\<open>notifyTestComplete\<close> runs the first one's handler, then the second's.
\<close>

theorem notifier_fan_out:
  "(run_all (map (\<lambda>observer. onTestStart observer t) (observers n)) w = (us, w')
      \<and> list_all (\<lambda>u. u = Inr ()) us \<longrightarrow>
    notifyTestStart n t w = (Inr (), w') \<and> length us = length (observers n))
   \<and> (run_all (map (\<lambda>observer. onTestComplete observer r) (observers n)) w = (us, w')
      \<and> list_all (\<lambda>u. u = Inr ()) us \<longrightarrow>
    notifyTestComplete n r w = (Inr (), w') \<and> length us = length (observers n))
   \<and> (run_all (map (\<lambda>observer. onSuiteComplete observer s) (observers n)) w = (us, w')
      \<and> list_all (\<lambda>u. u = Inr ()) us \<longrightarrow>
    notifySuiteComplete n s w = (Inr (), w') \<and> length us = length (observers n))
   \<and> (onTestComplete o1 r w = (Inr (), w1) \<and> onTestComplete o2 r w1 = (Inr (), w2) \<longrightarrow>
    notifyTestComplete (addObserver (addObserver new_TestResultNotifier o1) o2) r w = (Inr (), w2))"
proof (intro conjI impI)
  assume "onTestComplete o1 r w = (Inr (), w1) \<and> onTestComplete o2 r w1 = (Inr (), w2)"
  then show "notifyTestComplete (addObserver (addObserver new_TestResultNotifier o1) o2) r w = (Inr (), w2)"
    by (simp add: notifyTestComplete_def addObserver_def new_TestResultNotifier_def)
qed (auto simp: notifyTestStart_def notifyTestComplete_def notifySuiteComplete_def
       forEach_run_all dest: length_run_all)

theorem notifier_fan_out_witness:
  "notifyTestStart \<lparr>observers = [logging_observer ''first'', logging_observer ''second'']\<rparr> ''T'' []
     = (Inr (), [''first start T'', ''second start T''])
   \<and> notifyTestComplete \<lparr>observers = [logging_observer ''first'', logging_observer ''second'']\<rparr>
        \<lparr>testName = ''T'', status = Passed, duration = 100, error = None, timestamp = 0\<rparr> []
     = (Inr (), [''first complete T'', ''second complete T''])
   \<and> notifySuiteComplete \<lparr>observers = [logging_observer ''first'', logging_observer ''second'']\<rparr>
        \<lparr>suiteName = ''S'', results = [], totalTests = 0, passedTests = 0, failedTests = 0,
         skippedTests = 0, totalDuration = 0\<rparr> []
     = (Inr (), [''first suite S'', ''second suite S''])
   \<and> notifyTestComplete
        (addObserver (addObserver new_TestResultNotifier (logging_observer ''first''))
          (logging_observer ''second''))
        \<lparr>testName = ''T'', status = Passed, duration = 100, error = None, timestamp = 0\<rparr> []
     = (Inr (), [''first complete T'', ''second complete T''])"
  using notifier_fan_out [where n = "\<lparr>observers = [logging_observer ''first'', logging_observer ''second'']\<rparr>"
      and t = "''T''" and w = "[]" and us = "[Inr (), Inr ()]"
      and w' = "[''first start T'', ''second start T'']"]
    notifier_fan_out [where n = "\<lparr>observers = [logging_observer ''first'', logging_observer ''second'']\<rparr>"
      and r = "\<lparr>testName = ''T'', status = Passed, duration = 100, error = None, timestamp = 0\<rparr>"
      and w = "[]" and us = "[Inr (), Inr ()]"
      and w' = "[''first complete T'', ''second complete T'']"
      and ?o1.0 = "logging_observer ''first''" and ?o2.0 = "logging_observer ''second''"
      and ?w1.0 = "[''first complete T'']" and ?w2.0 = "[''first complete T'', ''second complete T'']"]
    notifier_fan_out [where n = "\<lparr>observers = [logging_observer ''first'', logging_observer ''second'']\<rparr>"
      and s = "\<lparr>suiteName = ''S'', results = [], totalTests = 0, passedTests = 0, failedTests = 0,
         skippedTests = 0, totalDuration = 0\<rparr>"
      and w = "[]" and us = "[Inr (), Inr ()]"
      and w' = "[''first suite S'', ''second suite S'']"]
  by (simp add: logging_observer_def)

section \<open>Composite validation\<close>

lemma validate_loop_run_all:
  "run_all (map (\<lambda>s. validate s d) ss) w = (map Inr vs, w') \<Longrightarrow>
   validate_loop ss d allErrors allValid w =
     (Inr (allErrors @ snd (code_composite vs), allValid \<and> fst (code_composite vs)), w')"
proof (induction ss arbitrary: w vs w' allErrors allValid)
  case Nil
  then show ?case by (auto simp: code_composite_def)
next
  case (Cons s ss)
  obtain r wa where s: "validate s d w = (r, wa)" by (cases "validate s d w")
  obtain rs wb where p: "run_all (map (\<lambda>s. validate s d) ss) wa = (rs, wb)"
    by (cases "run_all (map (\<lambda>s. validate s d) ss) wa")
  from Cons.prems s p obtain v vs' where vs: "vs = v # vs'" and r: "r = Inr v"
    and rs: "rs = map Inr vs'" and w': "w' = wb"
    by (cases vs) auto
  from p rs w' have p': "run_all (map (\<lambda>s. validate s d) ss) wa = (map Inr vs', w')" by simp
  show ?case
    using Cons.IH [OF p'] s r vs by (simp add: code_composite_def)
qed

lemma code_composite_spec:
  "\<forall>v\<in>set vs. isValid v \<longrightarrow> errors v = [] \<Longrightarrow> code_composite vs = spec_composite vs"
  by (induction vs) (auto simp: code_composite_def spec_composite_def)

text \<open>
  Claim C3, as the code has it. When the sub-strategies, run in list order on the datum
  (each in the world the one before left), return the results \<open>vs\<close>, the composite
  returns: \<open>isValid\<close> true iff every sub-result is valid; as errors the error lists of
  the invalid sub-results, concatenated in list order (a valid sub-result's errors are
  not taken); every sub-strategy has run, whatever the earlier ones returned. When every
  valid sub-result has no errors, that is the concatenation of all sub-results' errors, as
  the specification says.
\<close>

theorem composite_aggregation:
  "(run_all (map (\<lambda>s. validate s d) (strategies c)) w = (map Inr vs, w') \<longrightarrow>
      CompositeValidationStrategy_validate c d w =
        (Inr \<lparr>isValid = list_all isValid vs,
              errors = concat (map errors (filter (\<lambda>v. \<not> isValid v) vs)),
              field = Some ''composite''\<rparr>, w')
      \<and> length vs = length (strategies c))
   \<and> (run_all (map (\<lambda>s. validate s d) (strategies c)) w = (map Inr vs, w')
      \<and> (\<forall>v\<in>set vs. isValid v \<longrightarrow> errors v = []) \<longrightarrow>
      CompositeValidationStrategy_validate c d w =
        (Inr \<lparr>isValid = fst (spec_composite vs), errors = snd (spec_composite vs),
              field = Some ''composite''\<rparr>, w'))"
proof (intro conjI impI)
  assume a: "run_all (map (\<lambda>s. validate s d) (strategies c)) w = (map Inr vs, w')"
  from validate_loop_run_all [OF a, of "[]" True]
  show "CompositeValidationStrategy_validate c d w =
        (Inr \<lparr>isValid = list_all isValid vs,
              errors = concat (map errors (filter (\<lambda>v. \<not> isValid v) vs)),
              field = Some ''composite''\<rparr>, w')"
    by (simp add: CompositeValidationStrategy_validate_def code_composite_def)
  from length_run_all [OF a] show "length vs = length (strategies c)" by simp
next
  assume a: "run_all (map (\<lambda>s. validate s d) (strategies c)) w = (map Inr vs, w')
      \<and> (\<forall>v\<in>set vs. isValid v \<longrightarrow> errors v = [])"
  then have "code_composite vs = spec_composite vs" by (simp add: code_composite_spec)
  with a validate_loop_run_all [of d "strategies c" w vs w' "[]" True]
  show "CompositeValidationStrategy_validate c d w =
        (Inr \<lparr>isValid = fst (spec_composite vs), errors = snd (spec_composite vs),
              field = Some ''composite''\<rparr>, w')"
    by (simp add: CompositeValidationStrategy_validate_def)
qed

theorem composite_aggregation_witness:
  "CompositeValidationStrategy_validate
      (new_CompositeValidationStrategy [fixed_strategy ''A'' True [], fixed_strategy ''B'' False [''x'']])
      () []
     = (Inr \<lparr>isValid = False, errors = [''x''], field = Some ''composite''\<rparr>, [''A'', ''B''])
   \<and> CompositeValidationStrategy_validate
      (new_CompositeValidationStrategy
        [fixed_strategy ''B'' False [''x''], fixed_strategy ''A'' True [''note''],
         fixed_strategy ''C'' False [''y'', ''z'']])
      () []
     = (Inr \<lparr>isValid = False, errors = [''x'', ''y'', ''z''], field = Some ''composite''\<rparr>,
        [''B'', ''A'', ''C''])"
  using
    composite_aggregation [where c = "new_CompositeValidationStrategy
        [fixed_strategy ''A'' True [], fixed_strategy ''B'' False [''x'']]"
      and d = "()" and w = "[]"
      and vs = "[\<lparr>isValid = True, errors = [], field = None\<rparr>,
                 \<lparr>isValid = False, errors = [''x''], field = None\<rparr>]"
      and w' = "[''A'', ''B'']"]
    composite_aggregation [where c = "new_CompositeValidationStrategy
        [fixed_strategy ''B'' False [''x''], fixed_strategy ''A'' True [''note''],
         fixed_strategy ''C'' False [''y'', ''z'']]"
      and d = "()" and w = "[]"
      and vs = "[\<lparr>isValid = False, errors = [''x''], field = None\<rparr>,
                 \<lparr>isValid = True, errors = [''note''], field = None\<rparr>,
                 \<lparr>isValid = False, errors = [''y'', ''z''], field = None\<rparr>]"
      and w' = "[''B'', ''A'', ''C'']"]
  by (simp add: new_CompositeValidationStrategy_def fixed_strategy_def spec_composite_def)

text \<open>
  Claim C3 as stated fails at a sub-strategy whose result is valid and carries an error
  string: the composite's errors are not the concatenation of the sub-results' errors.
\<close>

theorem composite_errors_counterexample:
  "errors (projr (fst (CompositeValidationStrategy_validate
       (new_CompositeValidationStrategy [fixed_strategy ''A'' True [''note'']]) () [])))
   \<noteq> concat [errors (projr (fst (validate (fixed_strategy ''A'' True [''note'']) () [])))]"
  by (simp add: CompositeValidationStrategy_validate_def new_CompositeValidationStrategy_def
        fixed_strategy_def)

section \<open>The retried request\<close>


lemma failures_without_status_are_retried:
  "\<not> nonRetryable (AxiosError None q m) \<and> \<not> nonRetryable (Error m) \<and> \<not> nonRetryable (TypeError m)
   \<and> nonRetryable (AxiosError (Some st) q m) = (400 \<le> st \<and> st < 500 \<and> st \<noteq> 429)"
  by (simp add: nonRetryable_def)




section \<open>Parameter checks before the request\<close>

lemma retryRequest_calls:
  "calls w < calls (snd (retryRequest cfg (client_get net ps) k w))"
proof (induction cfg "client_get net ps" k w rule: retryRequest.induct)
  case (1 cfg attempt w)
  show ?case
  proof (cases "net (calls w) ps")
    case (Inr r)
    then show ?thesis by (subst retryRequest.simps) (simp add: client_get_def)
  next
    case (Inl e)
    show ?thesis
    proof (cases "int attempt \<ge> retryAttempts cfg \<or> nonRetryable e")
      case True
      with Inl show ?thesis by (subst retryRequest.simps) (auto simp: client_get_def)
    next
      case False
      with Inl "1" [of "Inl e" "w\<lparr>calls := Suc (calls w)\<rparr>" e]
      show ?thesis by (subst retryRequest.simps) (auto simp: client_get_def wait_def)
    qed
  qed
qed

lemma getMultipleUsers_in_range_calls:
  "1 \<le> count \<Longrightarrow> count \<le> 5000 \<Longrightarrow> calls w < calls (snd (getMultipleUsers net cfg count params w))"
  using retryRequest_calls [of w cfg net "defaultParams ++ params(''results'' \<mapsto> Num count)" 1]
  by (auto simp: getMultipleUsers_def getUsers_def split: prod.splits sum.splits)

text \<open>
  Claim C8. For every whole number \<open>count\<close> below 1 or above 5000, \<^verbatim>\<open>getMultipleUsers\<close>
  throws \<^verbatim>\<open>Error('Count must be between 1 and 5000')\<close> at once: the world is as before,
  so no request has been issued (the request counter has not moved) and nothing was
  waited for or retried.
\<close>

theorem bulk_fetch_count_checked:
  "count < 1 \<or> count > 5000 \<Longrightarrow>
   getMultipleUsers net cfg count params w = (Inl (Error ''Count must be between 1 and 5000''), w)
   \<and> calls (snd (getMultipleUsers net cfg count params w)) = calls w
   \<and> waits (snd (getMultipleUsers net cfg count params w)) = waits w"
  by (simp add: getMultipleUsers_def)

theorem bulk_fetch_count_checked_witness:
  "((-1 :: int) < 1 \<or> (-1 :: int) > 5000)
   \<and> getMultipleUsers flaky_network \<lparr>retryAttempts = 3, retryDelay = 1000\<rparr> (-1) Map.empty
        \<lparr>calls = 0, waits = []\<rparr>
      = (Inl (Error ''Count must be between 1 and 5000''), \<lparr>calls = 0, waits = []\<rparr>)
   \<and> getMultipleUsers flaky_network \<lparr>retryAttempts = 3, retryDelay = 1000\<rparr> 0 Map.empty
        \<lparr>calls = 0, waits = []\<rparr>
      = (Inl (Error ''Count must be between 1 and 5000''), \<lparr>calls = 0, waits = []\<rparr>)
   \<and> getMultipleUsers flaky_network \<lparr>retryAttempts = 3, retryDelay = 1000\<rparr> 5001 Map.empty
        \<lparr>calls = 0, waits = []\<rparr>
      = (Inl (Error ''Count must be between 1 and 5000''), \<lparr>calls = 0, waits = []\<rparr>)
   \<and> calls (snd (getMultipleUsers flaky_network \<lparr>retryAttempts = 3, retryDelay = 1000\<rparr> 999999
        Map.empty \<lparr>calls = 0, waits = []\<rparr>)) = 0"
proof -
  have h1: "(-1 :: int) < 1 \<or> (-1 :: int) > 5000" by simp
  have h2: "(0 :: int) < 1 \<or> (0 :: int) > 5000" by simp
  have h3: "(5001 :: int) < 1 \<or> (5001 :: int) > 5000" by simp
  have h4: "(999999 :: int) < 1 \<or> (999999 :: int) > 5000" by simp
  show ?thesis
    using h1
      bulk_fetch_count_checked [OF h1, of flaky_network "\<lparr>retryAttempts = 3, retryDelay = 1000\<rparr>"
        Map.empty "\<lparr>calls = 0, waits = []\<rparr>"]
      bulk_fetch_count_checked [OF h2, of flaky_network "\<lparr>retryAttempts = 3, retryDelay = 1000\<rparr>"
        Map.empty "\<lparr>calls = 0, waits = []\<rparr>"]
      bulk_fetch_count_checked [OF h3, of flaky_network "\<lparr>retryAttempts = 3, retryDelay = 1000\<rparr>"
        Map.empty "\<lparr>calls = 0, waits = []\<rparr>"]
      bulk_fetch_count_checked [OF h4, of flaky_network "\<lparr>retryAttempts = 3, retryDelay = 1000\<rparr>"
        Map.empty "\<lparr>calls = 0, waits = []\<rparr>"]
    by simp
qed

section \<open>The metrics observer\<close>

text \<open>
  What holds after every sequence of \<^verbatim>\<open>onTestComplete\<close> calls: the counters add up,
  the total is the sum of the durations, the average is total by count, the fastest test
  is a received result of least duration, and the slowest test is a received result of
  greatest duration once some received duration is above 0.
\<close>

lemma metrics_after_snoc:
  "metrics_after (rs @ [r]) = Metrics_onTestComplete (metrics_after rs) r"
  by (simp add: metrics_after_def)

lemma metrics_counts:
  "totalTests (metrics_after rs) = length rs
   \<and> totalTests (metrics_after rs)
       = passedTests (metrics_after rs) + failedTests (metrics_after rs) + skippedTests (metrics_after rs)
   \<and> totalDuration (metrics_after rs) = sum_list (map duration rs)"
proof (induction rs rule: rev_induct)
  case Nil
  then show ?case by (simp add: metrics_after_def new_Metrics_def)
next
  case (snoc r rs)
  then show ?case
    by (cases "status r") (simp_all add: metrics_after_snoc Metrics_onTestComplete_def Let_def)
qed

lemma metrics_average:
  "averageDuration (metrics_after (rs @ [r]))
     = real_of_int (totalDuration (metrics_after (rs @ [r]))) / real (totalTests (metrics_after (rs @ [r])))"
  by (cases "status r") (simp_all add: metrics_after_snoc Metrics_onTestComplete_def Let_def)

lemma metrics_fastest:
  "rs \<noteq> [] \<Longrightarrow>
   \<exists>r\<in>set rs. fastestTest (metrics_after rs) = (testName r, Finite (duration r))
     \<and> (\<forall>r'\<in>set rs. duration r \<le> duration r')"
proof (induction rs rule: rev_induct)
  case Nil
  then show ?case by simp
next
  case (snoc r rs)
  show ?case
  proof (cases "rs = []")
    case True
    then show ?thesis
      by (cases "status r")
         (simp_all add: metrics_after_def new_Metrics_def Metrics_onTestComplete_def Let_def)
  next
    case False
    with snoc.IH obtain q where q: "q \<in> set rs"
      "fastestTest (metrics_after rs) = (testName q, Finite (duration q))"
      "\<forall>r'\<in>set rs. duration q \<le> duration r'" by blast
    show ?thesis
    proof (cases "duration r < duration q")
      case True
      with q have "fastestTest (metrics_after (rs @ [r])) = (testName r, Finite (duration r))"
        by (cases "status r") (simp_all add: metrics_after_snoc Metrics_onTestComplete_def Let_def)
      moreover from True q(3) have "\<forall>r'\<in>set (rs @ [r]). duration r \<le> duration r'" by fastforce
      ultimately show ?thesis by auto
    next
      case False
      with q have "fastestTest (metrics_after (rs @ [r])) = (testName q, Finite (duration q))"
        by (cases "status r") (simp_all add: metrics_after_snoc Metrics_onTestComplete_def Let_def)
      moreover from False q(3) have "\<forall>r'\<in>set (rs @ [r]). duration q \<le> duration r'" by fastforce
      ultimately show ?thesis using q(1) by auto
    qed
  qed
qed

lemma metrics_slowest:
  "(slowestTest (metrics_after rs) = ([], Finite 0) \<and> (\<forall>r\<in>set rs. duration r \<le> 0))
   \<or> (\<exists>r\<in>set rs. slowestTest (metrics_after rs) = (testName r, Finite (duration r))
        \<and> 0 < duration r \<and> (\<forall>r'\<in>set rs. duration r' \<le> duration r))"
proof (induction rs rule: rev_induct)
  case Nil
  then show ?case by (simp add: metrics_after_def new_Metrics_def)
next
  case (snoc r rs)
  from snoc.IH show ?case
  proof
    assume a: "slowestTest (metrics_after rs) = ([], Finite 0) \<and> (\<forall>r\<in>set rs. duration r \<le> 0)"
    show ?thesis
    proof (cases "0 < duration r")
      case True
      with a have "slowestTest (metrics_after (rs @ [r])) = (testName r, Finite (duration r))"
        by (cases "status r") (simp_all add: metrics_after_snoc Metrics_onTestComplete_def Let_def)
      moreover from True a have "\<forall>r'\<in>set (rs @ [r]). duration r' \<le> duration r" by fastforce
      ultimately show ?thesis using True by auto
    next
      case False
      with a have "slowestTest (metrics_after (rs @ [r])) = ([], Finite 0)"
        by (cases "status r") (simp_all add: metrics_after_snoc Metrics_onTestComplete_def Let_def)
      with False a show ?thesis by auto
    qed
  next
    assume "\<exists>r\<in>set rs. slowestTest (metrics_after rs) = (testName r, Finite (duration r))
        \<and> 0 < duration r \<and> (\<forall>r'\<in>set rs. duration r' \<le> duration r)"
    then obtain q where q: "q \<in> set rs"
      "slowestTest (metrics_after rs) = (testName q, Finite (duration q))"
      "0 < duration q" "\<forall>r'\<in>set rs. duration r' \<le> duration q" by blast
    show ?thesis
    proof (cases "duration q < duration r")
      case True
      with q have "slowestTest (metrics_after (rs @ [r])) = (testName r, Finite (duration r))"
        by (cases "status r") (simp_all add: metrics_after_snoc Metrics_onTestComplete_def Let_def)
      moreover from True q have "\<forall>r'\<in>set (rs @ [r]). duration r' \<le> duration r" by fastforce
      moreover from True q have "0 < duration r" by simp
      ultimately show ?thesis by auto
    next
      case False
      with q have "slowestTest (metrics_after (rs @ [r])) = (testName q, Finite (duration q))"
        by (cases "status r") (simp_all add: metrics_after_snoc Metrics_onTestComplete_def Let_def)
      moreover from False q have "\<forall>r'\<in>set (rs @ [r]). duration r' \<le> duration q" by fastforce
      ultimately show ?thesis using q(1,3) by auto
    qed
  qed
qed

text \<open>
  Claim C9 at a single received result of duration 0 (a test that ends within the
  millisecond it started in): \<^verbatim>\<open>0 > 0\<close> is false, so \<^verbatim>\<open>slowestTest\<close> keeps its initial
  value, with the empty name, which is not the name of the received result;
  \<^verbatim>\<open>fastestTest\<close>, which starts from \<^verbatim>\<open>Infinity\<close>, holds the result.
\<close>

theorem metrics_slowest_zero_duration:
  "slowestTest (metrics_after
      [\<lparr>testName = ''t'', status = Passed, duration = 0, error = None, timestamp = 0\<rparr>])
     = ([], Finite 0)
   \<and> fastestTest (metrics_after
      [\<lparr>testName = ''t'', status = Passed, duration = 0, error = None, timestamp = 0\<rparr>])
     = (''t'', Finite 0)"
  by (simp add: metrics_after_def new_Metrics_def Metrics_onTestComplete_def)

end
